theory Spec2Isabelle
  imports Complex_Main
begin

section \<open>Data of the sample detector node\<close>

text \<open>
  \<^verbatim>\<open>cv::Rect\<close>: an axis-aligned box with integer coordinates.  The node reads the
  fields \<^verbatim>\<open>x\<close>, \<^verbatim>\<open>y\<close>, \<^verbatim>\<open>width\<close> and \<^verbatim>\<open>height\<close> of a bounding box.
\<close>

record Rect =
  bb_x :: int
  bb_y :: int
  bb_width :: int
  bb_height :: int

text \<open>
  \<^verbatim>\<open>butObject\<close>: a detection or a prediction.  The node reads and writes \<^verbatim>\<open>m_id\<close>,
  reads \<^verbatim>\<open>m_bb\<close>, and the matcher compares \<^verbatim>\<open>m_class\<close>; further detector-specific
  payload is never touched here.
\<close>

record butObject =
  m_id :: int
  m_class :: int
  m_bb :: Rect

text \<open>
  Modelled from the spec: the declaration of \<^verbatim>\<open>TMatch\<close> (header \<^verbatim>\<open>but_objdet.h\<close>) is not
  part of the sources at hand.  The node reads only \<^verbatim>\<open>predId\<close>, an \<^verbatim>\<open>int\<close> that is
  \<^verbatim>\<open>-1\<close> when no prediction was matched; the other two fields follow the
  Match of the data model (detection index, overlap score).
\<close>

record TMatch =
  detectionIndex :: nat
  predId :: int
  overlapScore :: rat

text \<open>
  Indexing a \<^verbatim>\<open>std::vector\<close> out of range with \<^verbatim>\<open>operator[]\<close> is undefined behaviour;
  the model makes it a fault.
\<close>

datatype fault = IndexOutOfRange

section \<open>The identity counter\<close>

text \<open>
  \<^verbatim>\<open>int SampleDetectorNode::getNewObjectID()\<close>: takes the member \<^verbatim>\<open>lastObjectID\<close> and
  gives the returned identity together with the new value of the member.  The
  increment is applied to a value below 100000 only, so the \<^verbatim>\<open>int\<close> of the source
  never overflows and unbounded integers model it exactly.
\<close>

definition getNewObjectID :: "int \<Rightarrow> int \<times> int" where
  "getNewObjectID lastObjectID =
     (let l = (if lastObjectID \<ge> 100000 then 0 else lastObjectID)
      in (l + 1, l + 1))"

text \<open>
  The member after \<open>k\<close> consecutive calls, and the identities that \<open>n\<close> consecutive
  calls return, in call order.
\<close>

fun counterAfter :: "nat \<Rightarrow> int \<Rightarrow> int" where
  "counterAfter 0 c = c"
| "counterAfter (Suc k) c = counterAfter k (snd (getNewObjectID c))"

fun newObjectIDs :: "nat \<Rightarrow> int \<Rightarrow> int list" where
  "newObjectIDs 0 c = []"
| "newObjectIDs (Suc n) c =
     (case getNewObjectID c of (newID, c') \<Rightarrow> newID # newObjectIDs n c')"

section \<open>Identity assignment (step 5 of the callback)\<close>

text \<open>
  The loop \<^verbatim>\<open>for(unsigned int i = 0; i < matches.size(); i++)\<close> of
  \<^verbatim>\<open>newDataCallback\<close>, started at index \<open>i\<close>.  It returns the detections and the
  counter as the loop leaves them, or a fault where the source indexes
  \<^verbatim>\<open>detections\<close> or \<^verbatim>\<open>predictions\<close> out of range.  A \<^verbatim>\<open>predId\<close> other than \<^verbatim>\<open>-1\<close> is
  used as an index as it is: a negative one converts to a huge \<^verbatim>\<open>size_t\<close>.
  Vectors are taken to hold fewer than \<open>2 ^ 32\<close> elements, so the
  \<^verbatim>\<open>unsigned int\<close> index does not wrap.
\<close>

function assignIDs ::
  "nat \<Rightarrow> TMatch list \<Rightarrow> butObject list \<Rightarrow> butObject list \<Rightarrow> int
     \<Rightarrow> fault + (butObject list \<times> int)" where
  "assignIDs i matches preds dets lastID =
     (if i < length matches then
        if \<not> i < length dets then Inl IndexOutOfRange
        else if predId (matches ! i) \<noteq> -1 then
          (if 0 \<le> predId (matches ! i) \<and> nat (predId (matches ! i)) < length preds
           then assignIDs (i + 1) matches preds
                  (dets[i := (dets ! i)\<lparr>m_id := m_id (preds ! nat (predId (matches ! i)))\<rparr>])
                  lastID
           else Inl IndexOutOfRange)
        else
          (case getNewObjectID lastID of (newID, lastID') \<Rightarrow>
             assignIDs (i + 1) matches preds (dets[i := (dets ! i)\<lparr>m_id := newID\<rparr>]) lastID')
      else Inr (dets, lastID))"
  by pat_completeness auto
termination
  by (relation "measure (\<lambda>(i, matches, _, _, _). length matches - i)") auto

declare assignIDs.simps [simp del]

section \<open>The matcher\<close>

text \<open>
  Modelled from the spec: \<^verbatim>\<open>MatcherOverlap\<close> (header
  \<^verbatim>\<open>but_objdet/matcher/matcher_overlap.h\<close> and its implementation) is not part of the
  sources at hand; the node only calls \<^verbatim>\<open>setMinOverlap(50)\<close> and \<^verbatim>\<open>match\<close>.  The
  overlap ratio follows the Geometry/Overlap Evaluator of the specification: the
  area of the intersection, 0 when the intersection is empty or a rectangle has
  no area, otherwise the smaller of intersection / area(a) and
  intersection / area(b).  The ratio is a fraction of integers here; at equal
  numerator and denominator a floating-point quotient is exactly 1 as well.
\<close>

definition area :: "Rect \<Rightarrow> int" where
  "area r = bb_width r * bb_height r"

definition intersectionArea :: "Rect \<Rightarrow> Rect \<Rightarrow> int" where
  "intersectionArea a b =
     (let w = min (bb_x a + bb_width a) (bb_x b + bb_width b) - max (bb_x a) (bb_x b);
          h = min (bb_y a + bb_height a) (bb_y b + bb_height b) - max (bb_y a) (bb_y b)
      in if w \<le> 0 \<or> h \<le> 0 then 0 else w * h)"

definition overlapRatio :: "Rect \<Rightarrow> Rect \<Rightarrow> rat" where
  "overlapRatio a b =
     (let i = intersectionArea a b
      in if i = 0 then 0
         else if area a = 0 \<or> area b = 0 then 0
         else min (rat_of_int i / rat_of_int (area a)) (rat_of_int i / rat_of_int (area b)))"

text \<open>
  Modelled from the spec: the Matcher.  For one detection the predictions are
  scanned in order, \<open>k\<close> being the index of the next one; a prediction qualifies
  when its class equals the detection's and the ratio times 100 reaches the
  threshold, and it replaces the best one so far only when its ratio is
  strictly greater.  \<open>(-1, 0)\<close> stands for "none so far".
\<close>

definition qualifies :: "int \<Rightarrow> butObject \<Rightarrow> butObject \<Rightarrow> bool" where
  "qualifies minOverlapPercent d p \<longleftrightarrow>
     m_class p = m_class d \<and>
     overlapRatio (m_bb d) (m_bb p) * 100 \<ge> of_int minOverlapPercent"

fun bestPrediction ::
  "int \<Rightarrow> butObject \<Rightarrow> butObject list \<Rightarrow> nat \<Rightarrow> int \<times> rat \<Rightarrow> int \<times> rat" where
  "bestPrediction minOverlapPercent d [] k best = best"
| "bestPrediction minOverlapPercent d (p # ps) k best =
     (if qualifies minOverlapPercent d p \<and>
         (fst best = -1 \<or> overlapRatio (m_bb d) (m_bb p) > snd best)
      then bestPrediction minOverlapPercent d ps (k + 1) (int k, overlapRatio (m_bb d) (m_bb p))
      else bestPrediction minOverlapPercent d ps (k + 1) best)"

definition match :: "int \<Rightarrow> butObject list \<Rightarrow> butObject list \<Rightarrow> TMatch list" where
  "match minOverlapPercent dets preds =
     map (\<lambda>(i, d). case bestPrediction minOverlapPercent d preds 0 (-1, 0) of
                    (p, r) \<Rightarrow> \<lparr>detectionIndex = i, predId = p, overlapScore = r\<rparr>)
         (enumerate 0 dets)"

section \<open>The frame callback\<close>

text \<open>
  The members of \<^verbatim>\<open>SampleDetectorNode\<close> that the callback reads and writes.  All
  three outlive the callback: \<^verbatim>\<open>predictions\<close> and \<^verbatim>\<open>detections\<close> are not locals.
\<close>

record node =
  lastObjectID :: int
  predictions :: "butObject list"
  detections :: "butObject list"

text \<open>
  What the outside world answers during one callback: the image that
  \<^verbatim>\<open>cv_bridge::toCvCopy\<close> yields (\<open>None\<close> when it throws), the seconds that successive
  calls of \<^verbatim>\<open>ros::Time::now()\<close> read, and the predictions in the response of the
  service (\<open>None\<close> when \<^verbatim>\<open>predictClient.call\<close> returns false).
\<close>

record 'img frame =
  decoded :: "'img option"
  clock :: "nat list"
  response :: "butObject list option"

text \<open>
  What the callback does to the outside world, in order: \<^verbatim>\<open>ROS_ERROR\<close>, the call of
  the prediction service with the stamp of the request, \<^verbatim>\<open>sampleDetector->prediction\<close>
  with the predictions handed over, \<^verbatim>\<open>sampleDetector->detect\<close>,
  \<^verbatim>\<open>matcherOverlap->match\<close>, \<^verbatim>\<open>detectionsPub.publish\<close> with the detections, and the
  rectangle drawn and shown.
\<close>

datatype effect =
    LogError
  | CallPredict nat
  | Prediction "butObject list"
  | Detect
  | Match
  | Publish "butObject list"
  | ImShow Rect

text \<open>
  \<^verbatim>\<open>do { reqTime = ros::Time::now(); } while(reqTime.sec == 0);\<close> over the readings
  of the clock.  The loop ends at the first reading that is not 0; \<open>None\<close> is
  the loop still spinning when the readings are used up.
\<close>

fun waitForClock :: "nat list \<Rightarrow> nat option" where
  "waitForClock [] = None"
| "waitForClock (t # ts) = (if t = 0 then waitForClock ts else Some t)"

text \<open>
  \<^verbatim>\<open>void SampleDetectorNode::newDataCallback(imageMsg)\<close>.  The detector and the
  matcher are collaborators outside this file and are parameters: \<open>detect\<close>
  maps the image, the predictions handed over by \<^verbatim>\<open>prediction(...)\<close> and the
  previous contents of the output vector to the detections; \<open>matcher\<close> is
  \<^verbatim>\<open>match\<close> after \<^verbatim>\<open>setMinOverlap\<close>, filling a fresh vector.  The result is \<open>None\<close>
  when the callback does not return, a fault when it indexes out of range, and
  otherwise the node after the callback with the effects of the callback.
\<close>

definition newDataCallback ::
  "('img \<Rightarrow> butObject list \<Rightarrow> butObject list \<Rightarrow> butObject list)
     \<Rightarrow> (int \<Rightarrow> butObject list \<Rightarrow> butObject list \<Rightarrow> TMatch list)
     \<Rightarrow> 'img frame \<Rightarrow> node \<Rightarrow> (fault + node \<times> effect list) option" where
  "newDataCallback detect matcher f s =
     (case decoded f of
        None \<Rightarrow> Some (Inr (s, [LogError]))
      | Some img \<Rightarrow>
         (case waitForClock (clock f) of
            None \<Rightarrow> None
          | Some reqTime \<Rightarrow>
             (let (s1, e1) =
                    (case response f of
                       Some ps \<Rightarrow> (s\<lparr>predictions := ps\<rparr>, [CallPredict reqTime])
                     | None \<Rightarrow> (s, [CallPredict reqTime, LogError]));
                  s2 = s1\<lparr>detections := detect img (predictions s1) (detections s1)\<rparr>;
                  matches = matcher 50 (detections s2) (predictions s2)
              in case assignIDs 0 matches (predictions s2) (detections s2) (lastObjectID s2) of
                   Inl e \<Rightarrow> Some (Inl e)
                 | Inr (dets, lastID) \<Rightarrow>
                    (case dets of
                       [] \<Rightarrow> Some (Inl IndexOutOfRange)
                     | d # _ \<Rightarrow>
                        Some (Inr (s2\<lparr>detections := dets, lastObjectID := lastID\<rparr>,
                                   e1 @ [Prediction (predictions s1), Detect, Match,
                                         Publish dets, ImShow (m_bb d)]))))))"

section \<open>Notions used in the statements\<close>

text \<open>The counter after one call of \<^verbatim>\<open>getNewObjectID\<close>, which is also what the call returns.\<close>

definition nextID :: "int \<Rightarrow> int" where
  "nextID c = (if c \<ge> 100000 then 1 else c + 1)"

text \<open>A match entry that the loop can follow: no prediction, or an index into the predictions.\<close>

definition validPred :: "butObject list \<Rightarrow> TMatch \<Rightarrow> bool" where
  "validPred preds m \<longleftrightarrow> predId m = -1 \<or> (0 \<le> predId m \<and> nat (predId m) < length preds)"

text \<open>The number of entries without a prediction among the indices \<open>i\<close> to \<open>j - 1\<close>.\<close>

definition unmatchedIn :: "TMatch list \<Rightarrow> nat \<Rightarrow> nat \<Rightarrow> nat" where
  "unmatchedIn ms i j = length (filter (\<lambda>t. predId (ms ! t) = -1) [i..<j])"

text \<open>The identity that the detection at index \<open>i\<close> carries after the assignment loop.\<close>

definition identityAfter ::
  "TMatch list \<Rightarrow> butObject list \<Rightarrow> butObject list \<Rightarrow> int \<Rightarrow> nat \<Rightarrow> int option" where
  "identityAfter ms ps ds c i =
     (case assignIDs 0 ms ps ds c of
        Inl e \<Rightarrow> None
      | Inr (ds', c') \<Rightarrow> if i < length ds' then Some (m_id (ds' ! i)) else None)"

text \<open>
  The contents of the member \<^verbatim>\<open>predictions\<close> after step 1 of the callback: the response
  of the service when the call succeeds, and what the member held before otherwise.
\<close>

definition usedPredictions :: "'img frame \<Rightarrow> node \<Rightarrow> butObject list" where
  "usedPredictions f s = (case response f of Some ps \<Rightarrow> ps | None \<Rightarrow> predictions s)"

section \<open>Properties of the identity counter\<close>

lemma getNewObjectID_nextID: "getNewObjectID c = (nextID c, nextID c)"
  by (simp add: getNewObjectID_def nextID_def)

lemma nextID_le: "nextID c \<le> 100000"
  by (simp add: nextID_def)

lemma nextID_range: "0 \<le> c \<Longrightarrow> 1 \<le> nextID c \<and> nextID c \<le> 100000"
  by (simp add: nextID_def)

lemma counterAfter_Suc: "counterAfter (Suc k) c = nextID (counterAfter k c)"
  by (induction k arbitrary: c) (simp_all add: getNewObjectID_nextID)

lemma counterAfter_add: "counterAfter (a + b) c = counterAfter b (counterAfter a c)"
  by (induction a arbitrary: c) simp_all

lemma counterAfter_le: "0 < k \<Longrightarrow> counterAfter k c \<le> 100000"
  by (cases k) (simp_all add: counterAfter_Suc nextID_le del: counterAfter.simps)

lemma counterAfter_range:
  "0 \<le> c \<Longrightarrow> c \<le> 100000 \<Longrightarrow> 0 \<le> counterAfter k c \<and> counterAfter k c \<le> 100000"
proof (induction k)
  case 0
  then show ?case by simp
next
  case (Suc k)
  then show ?case
    using nextID_range[of "counterAfter k c"] by (simp add: counterAfter_Suc del: counterAfter.simps)
qed

lemma counterAfter_pos:
  "0 \<le> c \<Longrightarrow> 0 < k \<Longrightarrow> 1 \<le> counterAfter k c \<and> counterAfter k c \<le> 100000"
proof (cases k)
  case 0
  assume "0 < k"
  with 0 show ?thesis by simp
next
  case (Suc j)
  assume c: "0 \<le> c"
  have "0 \<le> counterAfter j c"
  proof (induction j)
    case 0
    from c show ?case by simp
  next
    case (Suc j)
    then show ?case by (simp add: counterAfter_Suc nextID_def del: counterAfter.simps)
  qed
  then show ?thesis
    unfolding Suc counterAfter_Suc by (rule nextID_range)
qed

lemma mod_step:
  fixes a :: int
  shows "(a + 1) mod 100000 = (if a mod 100000 = 99999 then 0 else a mod 100000 + 1)"
proof -
  have b: "0 \<le> a mod 100000" "a mod 100000 < 100000" by simp_all
  have "(a + 1) mod 100000 = (a mod 100000 + 1) mod 100000"
    by (simp add: mod_add_left_eq)
  also have "\<dots> = (if a mod 100000 = 99999 then 0 else a mod 100000 + 1)"
    using b by auto
  finally show ?thesis .
qed

text \<open>The counter after \<open>d\<close> calls, in closed form: it counts up to 100000 and then cycles.\<close>

lemma counterAfter_closed:
  "c \<le> 100000 \<Longrightarrow> counterAfter d c =
     (if c + int d \<le> 100000 then c + int d else ((c - 1 + int d) mod 100000) + 1)"
proof (induction d)
  case 0
  then show ?case by simp
next
  case (Suc d)
  have b: "0 \<le> (c - 1 + int d) mod 100000" "(c - 1 + int d) mod 100000 < 100000"
    by simp_all
  have e: "c - 1 + int (Suc d) = (c - 1 + int d) + 1" by simp
  consider "c + int d < 100000" | "c + int d = 100000" | "c + int d > 100000" by linarith
  then show ?case
  proof cases
    case 1
    then show ?thesis
      unfolding counterAfter_Suc Suc.IH[OF Suc.prems] nextID_def by simp
  next
    case 2
    then have "c - 1 + int (Suc d) = 100000" by simp
    then show ?thesis
      unfolding counterAfter_Suc Suc.IH[OF Suc.prems] nextID_def using 2 by simp
  next
    case 3
    then show ?thesis
      unfolding counterAfter_Suc Suc.IH[OF Suc.prems] nextID_def e mod_step using b by auto
  qed
qed

lemma counterAfter_from_0: "counterAfter (Suc j) 0 = int (j mod 100000) + 1"
proof -
  have "counterAfter (Suc j) 0 = (if int j + 1 \<le> 100000 then int j + 1 else (int j mod 100000) + 1)"
    using counterAfter_closed[of 0 "Suc j"] by simp
  also have "\<dots> = int j mod 100000 + 1" by simp
  finally show ?thesis by (simp add: zmod_int)
qed

text \<open>A value comes back only after 100000 further calls.\<close>

lemma counterAfter_no_return:
  assumes "c \<le> 100000" "0 < d" "d < 100000"
  shows "counterAfter d c \<noteq> c"
proof (cases "c + int d \<le> 100000")
  case True
  with assms show ?thesis by (simp add: counterAfter_closed)
next
  case False
  then have h: "counterAfter d c = (c - 1 + int d) mod 100000 + 1"
    using assms by (simp add: counterAfter_closed)
  from False assms have c: "1 \<le> c" by linarith
  show ?thesis
  proof
    assume "counterAfter d c = c"
    with h have "(c - 1 + int d) mod 100000 = c - 1" by simp
    moreover have "(c - 1) mod 100000 = c - 1" using c assms by simp
    ultimately have "(c - 1 + int d) mod 100000 = (c - 1) mod 100000" by simp
    then have "100000 dvd (c - 1 + int d) - (c - 1)" by (rule mod_eq_dvd_iff [THEN iffD1])
    then have "(100000::int) dvd int d" by simp
    then have "100000 \<le> int d" using assms by (intro zdvd_imp_le) simp_all
    with assms show False by simp
  qed
qed

lemma counterAfter_distinct:
  assumes "0 < a" "a < b" "b - a < 100000"
  shows "counterAfter a c \<noteq> counterAfter b c"
proof -
  have "counterAfter b c = counterAfter (b - a) (counterAfter a c)"
    using counterAfter_add[of a "b - a" c] assms by simp
  moreover have "counterAfter (b - a) (counterAfter a c) \<noteq> counterAfter a c"
    using assms by (intro counterAfter_no_return counterAfter_le) simp_all
  ultimately show ?thesis by simp
qed

lemma newObjectIDs_length: "length (newObjectIDs n c) = n"
  by (induction n arbitrary: c) (simp_all add: getNewObjectID_nextID)

lemma newObjectIDs_nth: "j < n \<Longrightarrow> newObjectIDs n c ! j = counterAfter (Suc j) c"
proof (induction n arbitrary: c j)
  case 0
  then show ?case by simp
next
  case (Suc n)
  show ?case
  proof (cases j)
    case 0
    then show ?thesis by (simp add: getNewObjectID_nextID)
  next
    case (Suc i)
    with Suc.prems have "i < n" by simp
    from Suc.IH[OF this, of "nextID c"] Suc show ?thesis
      by (simp add: getNewObjectID_nextID)
  qed
qed

section \<open>Properties of the identity-assignment loop\<close>

lemma unmatchedIn_step:
  "i < j \<Longrightarrow> unmatchedIn ms i j = (if predId (ms ! i) = -1 then 1 else 0) + unmatchedIn ms (Suc i) j"
  by (simp add: unmatchedIn_def upt_conv_Cons)

lemma unmatchedIn_empty: "j \<le> i \<Longrightarrow> unmatchedIn ms i j = 0"
  by (simp add: unmatchedIn_def)

lemma assignIDs_done: "\<not> i < length ms \<Longrightarrow> assignIDs i ms ps ds c = Inr (ds, c)"
  by (simp add: assignIDs.simps)

lemma assignIDs_fault:
  "i < length ms \<Longrightarrow> \<not> (i < length ds \<and> validPred ps (ms ! i)) \<Longrightarrow>
   assignIDs i ms ps ds c = Inl IndexOutOfRange"
  by (subst assignIDs.simps) (auto simp: validPred_def)

lemma assignIDs_matched:
  "i < length ms \<Longrightarrow> i < length ds \<Longrightarrow> predId (ms ! i) \<noteq> -1 \<Longrightarrow> validPred ps (ms ! i) \<Longrightarrow>
   assignIDs i ms ps ds c =
     assignIDs (Suc i) ms ps (ds[i := (ds ! i)\<lparr>m_id := m_id (ps ! nat (predId (ms ! i)))\<rparr>]) c"
  by (subst assignIDs.simps) (simp add: validPred_def)

lemma assignIDs_fresh:
  "i < length ms \<Longrightarrow> i < length ds \<Longrightarrow> predId (ms ! i) = -1 \<Longrightarrow>
   assignIDs i ms ps ds c =
     assignIDs (Suc i) ms ps (ds[i := (ds ! i)\<lparr>m_id := nextID c\<rparr>]) (nextID c)"
  by (subst assignIDs.simps) (simp add: getNewObjectID_nextID)

lemma assignIDs_length:
  "assignIDs i ms ps ds c = Inr (ds', c') \<Longrightarrow> length ds' = length ds"
proof (induction "length ms - i" arbitrary: i ds c)
  case 0
  then show ?case by (simp add: assignIDs_done)
next
  case (Suc n)
  then have lt: "i < length ms" and n: "n = length ms - Suc i" by simp_all
  have ok: "i < length ds \<and> validPred ps (ms ! i)"
    using Suc.prems lt assignIDs_fault[of i ms ds ps c] by auto
  show ?case
  proof (cases "predId (ms ! i) = -1")
    case True
    with Suc.hyps(1)[OF n] Suc.prems lt ok show ?thesis
      by (simp add: assignIDs_fresh)
  next
    case False
    with Suc.hyps(1)[OF n] Suc.prems lt ok show ?thesis
      by (simp add: assignIDs_matched)
  qed
qed

lemma all_from_split:
  "i < n \<Longrightarrow> (\<forall>j. i \<le> j \<and> j < n \<longrightarrow> P j) \<longleftrightarrow> (P i \<and> (\<forall>j. Suc i \<le> j \<and> j < n \<longrightarrow> P j))"
proof (intro iffI conjI allI impI)
  fix j assume "P i \<and> (\<forall>j. Suc i \<le> j \<and> j < n \<longrightarrow> P j)" and j: "i \<le> j \<and> j < n"
  then show "P j" by (cases "j = i") auto
qed auto

lemma assignIDs_ok_iff:
  "(\<exists>r. assignIDs i ms ps ds c = Inr r) \<longleftrightarrow>
     (\<forall>j. i \<le> j \<and> j < length ms \<longrightarrow> j < length ds \<and> validPred ps (ms ! j))"
proof (induction "length ms - i" arbitrary: i ds c)
  case 0
  then show ?case by (auto simp add: assignIDs_done)
next
  case (Suc n)
  then have lt: "i < length ms" and n: "n = length ms - Suc i" by simp_all
  note split = all_from_split[OF lt, of "\<lambda>j. j < length ds \<and> validPred ps (ms ! j)"]
  show ?case
  proof (cases "i < length ds \<and> validPred ps (ms ! i)")
    case False
    with lt have "assignIDs i ms ps ds c = Inl IndexOutOfRange" by (rule assignIDs_fault)
    with False show ?thesis unfolding split by auto
  next
    case True
    note ok = this
    show ?thesis
    proof (cases "predId (ms ! i) = -1")
      case True
      with ok lt have "assignIDs i ms ps ds c =
          assignIDs (Suc i) ms ps (ds[i := (ds ! i)\<lparr>m_id := nextID c\<rparr>]) (nextID c)"
        by (simp add: assignIDs_fresh)
      then show ?thesis unfolding split
        using ok Suc.hyps(1)[OF n, of "ds[i := (ds ! i)\<lparr>m_id := nextID c\<rparr>]" "nextID c"]
        by simp
    next
      case False
      with ok lt have "assignIDs i ms ps ds c =
          assignIDs (Suc i) ms ps (ds[i := (ds ! i)\<lparr>m_id := m_id (ps ! nat (predId (ms ! i)))\<rparr>]) c"
        by (simp add: assignIDs_matched)
      then show ?thesis unfolding split
        using ok Suc.hyps(1)[OF n, of "ds[i := (ds ! i)\<lparr>m_id := m_id (ps ! nat (predId (ms ! i)))\<rparr>]" c]
        by simp
    qed
  qed
qed

text \<open>What the loop leaves in the counter and at each index of the detections.\<close>

lemma assignIDs_result:
  assumes "assignIDs i ms ps ds c = Inr (ds', c')"
  shows "c' = counterAfter (unmatchedIn ms i (length ms)) c"
    and "j < i \<or> length ms \<le> j \<Longrightarrow> ds' ! j = ds ! j"
    and "i \<le> j \<Longrightarrow> j < length ms \<Longrightarrow> ds' ! j = (ds ! j)\<lparr>m_id :=
           (if predId (ms ! j) = -1 then counterAfter (unmatchedIn ms i (Suc j)) c
            else m_id (ps ! nat (predId (ms ! j))))\<rparr>"
  using assms
proof (induction "length ms - i" arbitrary: i ds c)
  case 0
  { case 1 then show ?case using 0 by (simp add: assignIDs_done unmatchedIn_empty) }
  { case 2 then show ?case using 0 by (simp add: assignIDs_done) }
  { case 3 then show ?case using 0 by simp }
next
  case (Suc n)
  then have lt: "i < length ms" and n: "n = length ms - Suc i" by simp_all
  { case 1
  have ok: "i < length ds \<and> validPred ps (ms ! i)"
    using 1 lt assignIDs_fault[of i ms ds ps c] by auto
  show ?case
  proof (cases "predId (ms ! i) = -1")
    case True
    with Suc.hyps(1)[OF n] 1 lt ok show ?thesis
      by (simp add: assignIDs_fresh unmatchedIn_step getNewObjectID_nextID)
  next
    case False
    with Suc.hyps(1)[OF n] 1 lt ok show ?thesis
      by (simp add: assignIDs_matched unmatchedIn_step)
  qed }
  { case 2
  have ok: "i < length ds \<and> validPred ps (ms ! i)"
    using 2 lt assignIDs_fault[of i ms ds ps c] by auto
  show ?case
  proof (cases "predId (ms ! i) = -1")
    case True
    with Suc.hyps(2)[OF n, of "ds[i := (ds ! i)\<lparr>m_id := nextID c\<rparr>]" "nextID c"] 2 lt ok show ?thesis
      by (auto simp add: assignIDs_fresh)
  next
    case False
    with Suc.hyps(2)[OF n, of "ds[i := (ds ! i)\<lparr>m_id := m_id (ps ! nat (predId (ms ! i)))\<rparr>]" c] 2 lt ok show ?thesis
      by (auto simp add: assignIDs_matched)
  qed }
  { case 3
  have ok: "i < length ds \<and> validPred ps (ms ! i)"
    using 3 lt assignIDs_fault[of i ms ds ps c] by auto
  show ?case
  proof (cases "predId (ms ! i) = -1")
    case True
    note um = this
    show ?thesis
    proof (cases "j = i")
      case True
      with Suc.hyps(2)[OF n, of "ds[i := (ds ! i)\<lparr>m_id := nextID c\<rparr>]" "nextID c"] 3 um lt ok show ?thesis
        by (simp add: assignIDs_fresh unmatchedIn_step unmatchedIn_empty getNewObjectID_nextID)
    next
      case False
      with Suc.hyps(3)[OF n, of "ds[i := (ds ! i)\<lparr>m_id := nextID c\<rparr>]" "nextID c"] 3 um lt ok show ?thesis
        by (simp add: assignIDs_fresh unmatchedIn_step getNewObjectID_nextID)
    qed
  next
    case False
    note um = this
    show ?thesis
    proof (cases "j = i")
      case True
      with Suc.hyps(2)[OF n, of "ds[i := (ds ! i)\<lparr>m_id := m_id (ps ! nat (predId (ms ! i)))\<rparr>]" c] 3 um lt ok show ?thesis
        by (simp add: assignIDs_matched)
    next
      case False
      with Suc.hyps(3)[OF n, of "ds[i := (ds ! i)\<lparr>m_id := m_id (ps ! nat (predId (ms ! i)))\<rparr>]" c] 3 um lt ok show ?thesis
        by (simp add: assignIDs_matched unmatchedIn_step)
    qed
  qed }
qed


lemma assignIDs_defined:
  assumes "length ms \<le> length ds" "\<forall>m\<in>set ms. validPred ps m"
  shows "\<exists>ds' c'. assignIDs 0 ms ps ds c = Inr (ds', c')"
proof -
  have "\<forall>j. 0 \<le> j \<and> j < length ms \<longrightarrow> j < length ds \<and> validPred ps (ms ! j)"
    using assms by auto
  then have "\<exists>r. assignIDs 0 ms ps ds c = Inr r"
    by (simp only: assignIDs_ok_iff)
  then show ?thesis by auto
qed

lemma assignIDs_fresh_id:
  assumes "assignIDs 0 ms ps ds c = Inr (ds', c')" "j < length ms" "predId (ms ! j) = -1"
  shows "m_id (ds' ! j) = counterAfter (unmatchedIn ms 0 (Suc j)) c"
  using assignIDs_result(3)[OF assms(1) le0 assms(2)] assms(3)
  by (simp del: counterAfter.simps)

lemma assignIDs_matched_id:
  assumes "assignIDs 0 ms ps ds c = Inr (ds', c')" "j < length ms" "predId (ms ! j) \<noteq> -1"
  shows "m_id (ds' ! j) = m_id (ps ! nat (predId (ms ! j)))"
  using assignIDs_result(3)[OF assms(1) le0 assms(2)] assms(3)
  by (simp del: counterAfter.simps)

lemma unmatchedIn_split:
  "i \<le> j \<Longrightarrow> j \<le> k \<Longrightarrow> unmatchedIn ms i k = unmatchedIn ms i j + unmatchedIn ms j k"
proof -
  assume "i \<le> j" "j \<le> k"
  then have "[i..<k] = [i..<j] @ [j..<k]"
    using upt_add_eq_append[of i j "k - j"] by simp
  then show ?thesis by (simp add: unmatchedIn_def)
qed

lemma unmatchedIn_last:
  "unmatchedIn ms 0 (Suc j) = unmatchedIn ms 0 j + (if predId (ms ! j) = -1 then 1 else 0)"
  by (simp add: unmatchedIn_def)

lemma unmatchedIn_filter:
  "unmatchedIn ms 0 (length ms) = length (filter (\<lambda>m. predId m = -1) ms)"
proof -
  have "filter (\<lambda>m. predId m = -1) (map ((!) ms) [0..<length ms])
        = map ((!) ms) (filter (\<lambda>t. predId (ms ! t) = -1) [0..<length ms])"
    by (simp add: filter_map o_def)
  then show ?thesis
    unfolding unmatchedIn_def map_nth by (metis length_map)
qed

lemma unmatchedIn_order:
  assumes "i < j" "j < length ms" "predId (ms ! i) = -1" "predId (ms ! j) = -1"
  shows "0 < unmatchedIn ms 0 (Suc i)"
    and "unmatchedIn ms 0 (Suc i) < unmatchedIn ms 0 (Suc j)"
    and "unmatchedIn ms 0 (Suc j) \<le> unmatchedIn ms 0 (length ms)"
proof -
  show "0 < unmatchedIn ms 0 (Suc i)"
    using assms(3) by (simp add: unmatchedIn_last)
  have "unmatchedIn ms 0 j = unmatchedIn ms 0 (Suc i) + unmatchedIn ms (Suc i) j"
    using assms(1) by (intro unmatchedIn_split) simp_all
  then show "unmatchedIn ms 0 (Suc i) < unmatchedIn ms 0 (Suc j)"
    using assms(4) by (simp add: unmatchedIn_last[of ms j])
  have "unmatchedIn ms 0 (length ms)
        = unmatchedIn ms 0 (Suc j) + unmatchedIn ms (Suc j) (length ms)"
    using assms(2) by (intro unmatchedIn_split) simp_all
  then show "unmatchedIn ms 0 (Suc j) \<le> unmatchedIn ms 0 (length ms)" by simp
qed

lemma unmatchedIn_replicate:
  "predId m = -1 \<Longrightarrow> k \<le> n \<Longrightarrow> unmatchedIn (replicate n m) 0 k = k"
  by (simp add: unmatchedIn_def)

section \<open>Properties of the matcher\<close>

lemma bestPrediction_none:
  "fst (bestPrediction t d ps k best) = -1 \<longleftrightarrow>
     fst best = -1 \<and> \<not> (\<exists>p\<in>set ps. qualifies t d p)"
proof (induction ps arbitrary: k best)
  case Nil
  then show ?case by simp
next
  case (Cons p ps)
  show ?case
  proof (cases "qualifies t d p")
    case False
    then show ?thesis by (simp add: Cons.IH)
  next
    case True
    then show ?thesis by (auto simp add: Cons.IH)
  qed
qed

lemma bestPrediction_index:
  assumes "fst best = -1 \<or> (0 \<le> fst best \<and> fst best < int k)"
  shows "fst (bestPrediction t d ps k best) = -1 \<or>
         (0 \<le> fst (bestPrediction t d ps k best) \<and>
          fst (bestPrediction t d ps k best) < int k + int (length ps))"
  using assms
proof (induction ps arbitrary: k best)
  case Nil
  then show ?case by simp
next
  case (Cons p ps)
  have a: "fst (int k, r) = -1 \<or> (0 \<le> fst (int k, r) \<and> fst (int k, r) < int (k + 1))" for r :: rat
    by simp
  have b: "fst best = -1 \<or> (0 \<le> fst best \<and> fst best < int (k + 1))"
    using Cons.prems by auto
  show ?case
  proof (cases "qualifies t d p \<and>
         (fst best = -1 \<or> overlapRatio (m_bb d) (m_bb p) > snd best)")
    case True
    then show ?thesis
      using Cons.IH[OF a, of "overlapRatio (m_bb d) (m_bb p)"] by (auto simp add: algebra_simps)
  next
    case False
    then show ?thesis
      using Cons.IH[OF b] by (auto simp add: algebra_simps)
  qed
qed

lemma match_length: "length (match t dets preds) = length dets"
  by (simp add: match_def)

lemma match_nth:
  "i < length dets \<Longrightarrow>
   match t dets preds ! i =
     \<lparr>detectionIndex = i, predId = fst (bestPrediction t (dets ! i) preds 0 (-1, 0)),
      overlapScore = snd (bestPrediction t (dets ! i) preds 0 (-1, 0))\<rparr>"
  by (simp add: match_def nth_enumerate_eq split: prod.split)

lemma match_validPred: "\<forall>m\<in>set (match t dets preds). validPred preds m"
proof
  fix m assume "m \<in> set (match t dets preds)"
  then obtain i where i: "i < length dets" and m: "m = match t dets preds ! i"
    by (auto simp: in_set_conv_nth match_length)
  have "fst (bestPrediction t (dets ! i) preds 0 (-1, 0)) = -1 \<or>
        (0 \<le> fst (bestPrediction t (dets ! i) preds 0 (-1, 0)) \<and>
         fst (bestPrediction t (dets ! i) preds 0 (-1, 0)) < int 0 + int (length preds))"
    by (rule bestPrediction_index) simp
  then show "validPred preds m"
    unfolding m match_nth[OF i] validPred_def by auto
qed

section \<open>Properties of the frame callback\<close>

text \<open>The callback after a decoded image and a started clock, in terms of the loop.\<close>

lemma newDataCallback_decoded:
  assumes "decoded f = Some img" and "waitForClock (clock f) = Some t"
  shows "newDataCallback detect matcher f s =
     (case assignIDs 0
             (matcher 50 (detect img (usedPredictions f s) (detections s)) (usedPredictions f s))
             (usedPredictions f s)
             (detect img (usedPredictions f s) (detections s)) (lastObjectID s) of
        Inl e \<Rightarrow> Some (Inl e)
      | Inr (dets, lastID) \<Rightarrow>
          (case dets of
             [] \<Rightarrow> Some (Inl IndexOutOfRange)
           | d # _ \<Rightarrow>
               Some (Inr (\<lparr>lastObjectID = lastID, predictions = usedPredictions f s,
                            detections = dets\<rparr>,
                          (case response f of
                             Some ps \<Rightarrow> [CallPredict t]
                           | None \<Rightarrow> [CallPredict t, LogError])
                          @ [Prediction (usedPredictions f s), Detect, Match,
                             Publish dets, ImShow (m_bb d)]))))"
  using assms
  by (cases "response f")
     (simp_all add: newDataCallback_def usedPredictions_def Let_def
        split: sum.splits list.splits prod.splits)

section \<open>Fresh identities\<close>

text \<open>
  C1.  Starting from an identity counter of 0, the \<open>k\<close>-th freshly minted identity
  is \<open>((k - 1) mod 100000) + 1\<close> for every \<open>k \<ge> 1\<close>: the identities run 1, 2, ...,
  100000 and then start again at 1.  In particular, when the first two
  entries of the match list record no prediction and the counter is 0, the
  first two detections receive the identities 1 and 2, in this order.
\<close>

theorem fresh_identity_sequence:
  "(1 \<le> k \<and> k \<le> n \<longrightarrow> newObjectIDs n 0 ! (k - 1) = int ((k - 1) mod 100000) + 1) \<and>
   (length ms \<le> length ds \<and> (\<forall>m\<in>set ms. validPred ps m) \<and> 2 \<le> length ms \<and>
    predId (ms ! 0) = -1 \<and> predId (ms ! 1) = -1 \<longrightarrow>
      (\<exists>ds' c'. assignIDs 0 ms ps ds 0 = Inr (ds', c') \<and>
          m_id (ds' ! 0) = 1 \<and> m_id (ds' ! 1) = 2))"
proof (intro conjI impI)
  assume "1 \<le> k \<and> k \<le> n"
  then obtain j where k: "k = Suc j" and j: "j < n" by (cases k) auto
  have "newObjectIDs n 0 ! j = counterAfter (Suc j) 0"
    using j by (rule newObjectIDs_nth)
  then show "newObjectIDs n 0 ! (k - 1) = int ((k - 1) mod 100000) + 1"
    unfolding k counterAfter_from_0 by simp
next
  assume h: "length ms \<le> length ds \<and> (\<forall>m\<in>set ms. validPred ps m) \<and> 2 \<le> length ms \<and>
    predId (ms ! 0) = -1 \<and> predId (ms ! 1) = -1"
  then obtain ds' c' where r: "assignIDs 0 ms ps ds 0 = Inr (ds', c')"
    using assignIDs_defined[of ms ds ps 0] by auto
  from h have "2 \<le> length ms" by simp
  then have l0: "0 < length ms" and l1: "1 < length ms" by linarith+
  from h have p0: "predId (ms ! 0) = -1" and p1: "predId (ms ! 1) = -1" by simp_all
  have u0: "unmatchedIn ms 0 (Suc 0) = Suc 0"
    using p0 by (simp add: unmatchedIn_def)
  have u1: "unmatchedIn ms 0 (Suc 1) = Suc 1"
    using p0 p1 by (simp add: unmatchedIn_def)
  have "m_id (ds' ! 0) = counterAfter (unmatchedIn ms 0 (Suc 0)) 0"
    using r l0 p0 by (rule assignIDs_fresh_id)
  also have "\<dots> = 1" unfolding u0 counterAfter_from_0 by simp
  finally have id0: "m_id (ds' ! 0) = 1" .
  have "m_id (ds' ! 1) = counterAfter (unmatchedIn ms 0 (Suc 1)) 0"
    using r l1 p1 by (rule assignIDs_fresh_id)
  also have "\<dots> = 2" unfolding u1 counterAfter_from_0 by simp
  finally have id1: "m_id (ds' ! 1) = 2" .
  from id0 id1 show "\<exists>ds' c'. assignIDs 0 ms ps ds 0 = Inr (ds', c') \<and>
          m_id (ds' ! 0) = 1 \<and> m_id (ds' ! 1) = 2"
    using r by simp
qed

theorem fresh_identity_sequence_witness:
  "newObjectIDs 100001 0 ! 100000 = 1 \<and>
   (\<exists>ds' c'. assignIDs 0
        [\<lparr>detectionIndex = 0, predId = -1, overlapScore = 0\<rparr>,
         \<lparr>detectionIndex = 1, predId = -1, overlapScore = 0\<rparr>] []
        [\<lparr>m_id = 0, m_class = 1, m_bb = \<lparr>bb_x = 0, bb_y = 0, bb_width = 10, bb_height = 10\<rparr>\<rparr>,
         \<lparr>m_id = 0, m_class = 1, m_bb = \<lparr>bb_x = 50, bb_y = 50, bb_width = 10, bb_height = 10\<rparr>\<rparr>] 0
      = Inr (ds', c') \<and> m_id (ds' ! 0) = 1 \<and> m_id (ds' ! 1) = 2)"
  using fresh_identity_sequence[of 100001 100001
        "[\<lparr>detectionIndex = 0, predId = -1, overlapScore = 0\<rparr>,
         \<lparr>detectionIndex = 1, predId = -1, overlapScore = 0\<rparr>]"
        "[\<lparr>m_id = 0, m_class = 1, m_bb = \<lparr>bb_x = 0, bb_y = 0, bb_width = 10, bb_height = 10\<rparr>\<rparr>,
         \<lparr>m_id = 0, m_class = 1, m_bb = \<lparr>bb_x = 50, bb_y = 50, bb_width = 10, bb_height = 10\<rparr>\<rparr>]"
        "[]"]
  by (simp add: validPred_def)

section \<open>Inherited identities\<close>

text \<open>
  C2.  For every frame and every index \<open>i\<close>, if the \<open>i\<close>-th match references a
  prediction (its \<^verbatim>\<open>predId\<close> is not \<^verbatim>\<open>-1\<close>), then after the identity assignment the
  \<open>i\<close>-th detection carries the identity of that prediction: the loop returns
  with it, and so does the callback of a decoded frame.  The loop is run
  where it is defined: there are at least as many detections as matches and
  every match that references a prediction references one that exists.
\<close>

theorem matched_identity_inherited:
  assumes "length ms \<le> length ds" and "\<forall>m\<in>set ms. validPred ps m"
    and "i < length ms" and "predId (ms ! i) \<noteq> -1"
  shows "(\<exists>ds' c'. assignIDs 0 ms ps ds c = Inr (ds', c') \<and>
            m_id (ds' ! i) = m_id (ps ! nat (predId (ms ! i)))) \<and>
         (decoded f = Some img \<and> waitForClock (clock f) = Some t \<and>
          ps = usedPredictions f s \<and> ds = detect img ps (detections s) \<and>
          ms = matcher 50 ds ps \<longrightarrow>
            (\<exists>s' es. newDataCallback detect matcher f s = Some (Inr (s', es)) \<and>
                m_id (detections s' ! i) = m_id (ps ! nat (predId (ms ! i)))))"
proof (rule conjI; (rule impI)?)
  obtain ds' c' where r: "assignIDs 0 ms ps ds c = Inr (ds', c')"
    using assignIDs_defined[OF assms(1,2)] by blast
  from r assms(3,4) have "m_id (ds' ! i) = m_id (ps ! nat (predId (ms ! i)))"
    by (rule assignIDs_matched_id)
  with r show "\<exists>ds' c'. assignIDs 0 ms ps ds c = Inr (ds', c') \<and>
            m_id (ds' ! i) = m_id (ps ! nat (predId (ms ! i)))" by blast
next
  assume h: "decoded f = Some img \<and> waitForClock (clock f) = Some t \<and>
          ps = usedPredictions f s \<and> ds = detect img ps (detections s) \<and>
          ms = matcher 50 ds ps"
  obtain ds' c' where r: "assignIDs 0 ms ps ds (lastObjectID s) = Inr (ds', c')"
    using assignIDs_defined[OF assms(1,2)] by blast
  from r assms(3,4) have inherit: "m_id (ds' ! i) = m_id (ps ! nat (predId (ms ! i)))"
    by (rule assignIDs_matched_id)
  have "length ds' = length ds" using r by (rule assignIDs_length)
  with assms(1,3) obtain d rest where ne: "ds' = d # rest" by (cases ds') auto
  from h have dec: "decoded f = Some img" and clk: "waitForClock (clock f) = Some t"
    and eqs: "usedPredictions f s = ps" "detect img ps (detections s) = ds"
      "matcher 50 ds ps = ms"
    by simp_all
  have "newDataCallback detect matcher f s =
      Some (Inr (\<lparr>lastObjectID = c', predictions = ps, detections = ds'\<rparr>,
        (case response f of Some ps \<Rightarrow> [CallPredict t] | None \<Rightarrow> [CallPredict t, LogError])
        @ [Prediction ps, Detect, Match, Publish ds', ImShow (m_bb d)]))"
    unfolding newDataCallback_decoded[OF dec clk] eqs r using ne by simp
  with inherit show "\<exists>s' es. newDataCallback detect matcher f s = Some (Inr (s', es)) \<and>
                m_id (detections s' ! i) = m_id (ps ! nat (predId (ms ! i)))"
    by simp
qed

theorem matched_identity_inherited_witness:
  "(\<exists>ds' c'. assignIDs 0
       (match 50
          [\<lparr>m_id = 0, m_class = 1, m_bb = \<lparr>bb_x = 10, bb_y = 10, bb_width = 20, bb_height = 20\<rparr>\<rparr>]
          [\<lparr>m_id = 7, m_class = 1, m_bb = \<lparr>bb_x = 10, bb_y = 10, bb_width = 20, bb_height = 20\<rparr>\<rparr>])
       [\<lparr>m_id = 7, m_class = 1, m_bb = \<lparr>bb_x = 10, bb_y = 10, bb_width = 20, bb_height = 20\<rparr>\<rparr>]
       [\<lparr>m_id = 0, m_class = 1, m_bb = \<lparr>bb_x = 10, bb_y = 10, bb_width = 20, bb_height = 20\<rparr>\<rparr>] 0
     = Inr (ds', c') \<and> m_id (ds' ! 0) = 7) \<and>
   (\<exists>s' es. newDataCallback
       (\<lambda>img ps old.
          [\<lparr>m_id = 0, m_class = 1, m_bb = \<lparr>bb_x = 10, bb_y = 10, bb_width = 20, bb_height = 20\<rparr>\<rparr>])
       match
       \<lparr>decoded = Some (0 :: nat), clock = [5],
        response = Some
          [\<lparr>m_id = 7, m_class = 1, m_bb = \<lparr>bb_x = 10, bb_y = 10, bb_width = 20, bb_height = 20\<rparr>\<rparr>]\<rparr>
       \<lparr>lastObjectID = 0, predictions = [], detections = []\<rparr>
     = Some (Inr (s', es)) \<and> m_id (detections s' ! 0) = 7)"
proof -
  let ?d = "[\<lparr>m_id = 0, m_class = 1,
               m_bb = \<lparr>bb_x = 10, bb_y = 10, bb_width = 20, bb_height = 20\<rparr>\<rparr>]"
  let ?p = "[\<lparr>m_id = 7, m_class = 1,
               m_bb = \<lparr>bb_x = 10, bb_y = 10, bb_width = 20, bb_height = 20\<rparr>\<rparr>]"
  let ?f = "\<lparr>decoded = Some (0 :: nat), clock = [5], response = Some ?p\<rparr>"
  let ?s = "\<lparr>lastObjectID = 0, predictions = [], detections = []\<rparr>"
  have p0: "predId (match 50 ?d ?p ! 0) = 0"
    by (simp add: match_def qualifies_def overlapRatio_def intersectionArea_def area_def)
  have h1: "length (match 50 ?d ?p) \<le> length ?d" by (simp add: match_length)
  have h2: "\<forall>m\<in>set (match 50 ?d ?p). validPred ?p m" by (rule match_validPred)
  have h3: "0 < length (match 50 ?d ?p)" by (simp add: match_length)
  have h4: "predId (match 50 ?d ?p ! 0) \<noteq> -1" by (simp add: p0)
  from matched_identity_inherited[OF h1 h2 h3 h4, of 0 ?f 0 5 ?s "\<lambda>img ps old. ?d" match]
  show ?thesis by (simp add: p0 usedPredictions_def)
qed

section \<open>A failed call of the prediction service\<close>

text \<open>
  C3 reads: whenever the call of the prediction service fails, the frame is
  processed with an empty prediction set, and no prediction data fetched for
  an earlier frame is reused.  The callback does otherwise: when
  \<^verbatim>\<open>predictClient.call\<close> fails it logs the error and leaves the member
  \<^verbatim>\<open>predictions\<close> as it is, so the frame is processed with the predictions of
  the last successful call.  Two frames show it, with a detector that finds
  one object of class 1 at (10, 10, 20, 20): in the first the service answers
  with a prediction of identity 7 at that box, in the second the call fails.
  The detection of the second frame is matched with the prediction of the
  first frame and inherits the identity 7, and the counter stays at 0; had
  the second frame been processed with an empty prediction list, the
  detection would have received the new identity 1.
\<close>

theorem failed_call_keeps_predictions:
  "newDataCallback
     (\<lambda>img ps old.
        [\<lparr>m_id = 0, m_class = 1, m_bb = \<lparr>bb_x = 10, bb_y = 10, bb_width = 20, bb_height = 20\<rparr>\<rparr>])
     match
     \<lparr>decoded = Some (0 :: nat), clock = [5],
      response = Some
        [\<lparr>m_id = 7, m_class = 1, m_bb = \<lparr>bb_x = 10, bb_y = 10, bb_width = 20, bb_height = 20\<rparr>\<rparr>]\<rparr>
     \<lparr>lastObjectID = 0, predictions = [], detections = []\<rparr>
   = Some (Inr
       (\<lparr>lastObjectID = 0,
         predictions =
           [\<lparr>m_id = 7, m_class = 1, m_bb = \<lparr>bb_x = 10, bb_y = 10, bb_width = 20, bb_height = 20\<rparr>\<rparr>],
         detections =
           [\<lparr>m_id = 7, m_class = 1, m_bb = \<lparr>bb_x = 10, bb_y = 10, bb_width = 20, bb_height = 20\<rparr>\<rparr>]\<rparr>,
        [CallPredict 5,
         Prediction
           [\<lparr>m_id = 7, m_class = 1, m_bb = \<lparr>bb_x = 10, bb_y = 10, bb_width = 20, bb_height = 20\<rparr>\<rparr>],
         Detect, Match,
         Publish
           [\<lparr>m_id = 7, m_class = 1, m_bb = \<lparr>bb_x = 10, bb_y = 10, bb_width = 20, bb_height = 20\<rparr>\<rparr>],
         ImShow \<lparr>bb_x = 10, bb_y = 10, bb_width = 20, bb_height = 20\<rparr>])) \<and>
   newDataCallback
     (\<lambda>img ps old.
        [\<lparr>m_id = 0, m_class = 1, m_bb = \<lparr>bb_x = 10, bb_y = 10, bb_width = 20, bb_height = 20\<rparr>\<rparr>])
     match
     \<lparr>decoded = Some (0 :: nat), clock = [6], response = None\<rparr>
     \<lparr>lastObjectID = 0,
      predictions =
        [\<lparr>m_id = 7, m_class = 1, m_bb = \<lparr>bb_x = 10, bb_y = 10, bb_width = 20, bb_height = 20\<rparr>\<rparr>],
      detections =
        [\<lparr>m_id = 7, m_class = 1, m_bb = \<lparr>bb_x = 10, bb_y = 10, bb_width = 20, bb_height = 20\<rparr>\<rparr>]\<rparr>
   = Some (Inr
       (\<lparr>lastObjectID = 0,
         predictions =
           [\<lparr>m_id = 7, m_class = 1, m_bb = \<lparr>bb_x = 10, bb_y = 10, bb_width = 20, bb_height = 20\<rparr>\<rparr>],
         detections =
           [\<lparr>m_id = 7, m_class = 1, m_bb = \<lparr>bb_x = 10, bb_y = 10, bb_width = 20, bb_height = 20\<rparr>\<rparr>]\<rparr>,
        [CallPredict 6, LogError,
         Prediction
           [\<lparr>m_id = 7, m_class = 1, m_bb = \<lparr>bb_x = 10, bb_y = 10, bb_width = 20, bb_height = 20\<rparr>\<rparr>],
         Detect, Match,
         Publish
           [\<lparr>m_id = 7, m_class = 1, m_bb = \<lparr>bb_x = 10, bb_y = 10, bb_width = 20, bb_height = 20\<rparr>\<rparr>],
         ImShow \<lparr>bb_x = 10, bb_y = 10, bb_width = 20, bb_height = 20\<rparr>])) \<and>
   newDataCallback
     (\<lambda>img ps old.
        [\<lparr>m_id = 0, m_class = 1, m_bb = \<lparr>bb_x = 10, bb_y = 10, bb_width = 20, bb_height = 20\<rparr>\<rparr>])
     match
     \<lparr>decoded = Some (0 :: nat), clock = [6], response = Some []\<rparr>
     \<lparr>lastObjectID = 0,
      predictions =
        [\<lparr>m_id = 7, m_class = 1, m_bb = \<lparr>bb_x = 10, bb_y = 10, bb_width = 20, bb_height = 20\<rparr>\<rparr>],
      detections =
        [\<lparr>m_id = 7, m_class = 1, m_bb = \<lparr>bb_x = 10, bb_y = 10, bb_width = 20, bb_height = 20\<rparr>\<rparr>]\<rparr>
   = Some (Inr
       (\<lparr>lastObjectID = 1, predictions = [],
         detections =
           [\<lparr>m_id = 1, m_class = 1, m_bb = \<lparr>bb_x = 10, bb_y = 10, bb_width = 20, bb_height = 20\<rparr>\<rparr>]\<rparr>,
        [CallPredict 6, Prediction [], Detect, Match,
         Publish
           [\<lparr>m_id = 1, m_class = 1, m_bb = \<lparr>bb_x = 10, bb_y = 10, bb_width = 20, bb_height = 20\<rparr>\<rparr>],
         ImShow \<lparr>bb_x = 10, bb_y = 10, bb_width = 20, bb_height = 20\<rparr>]))"
  by (simp add: newDataCallback_def match_def qualifies_def overlapRatio_def
        intersectionArea_def area_def assignIDs.simps getNewObjectID_def)

section \<open>Fresh identities within one batch\<close>

text \<open>
  C4 as stated fails: the counter starts again at 1 after 100000, so a batch
  with 100001 unmatched detections, started at counter 0, gives the identity 1
  to the first and to the last of them.
\<close>

theorem unmatched_identity_reused:
  "identityAfter
      (replicate 100001 \<lparr>detectionIndex = 0, predId = -1, overlapScore = 0\<rparr>) []
      (replicate 100001
         \<lparr>m_id = 0, m_class = 1, m_bb = \<lparr>bb_x = 0, bb_y = 0, bb_width = 10, bb_height = 10\<rparr>\<rparr>)
      0 0 = Some 1 \<and>
   identityAfter
      (replicate 100001 \<lparr>detectionIndex = 0, predId = -1, overlapScore = 0\<rparr>) []
      (replicate 100001
         \<lparr>m_id = 0, m_class = 1, m_bb = \<lparr>bb_x = 0, bb_y = 0, bb_width = 10, bb_height = 10\<rparr>\<rparr>)
      0 100000 = Some 1"
proof -
  define m where "m = \<lparr>detectionIndex = 0, predId = -1, overlapScore = 0\<rparr>"
  define d where
    "d = \<lparr>m_id = 0, m_class = 1, m_bb = \<lparr>bb_x = 0, bb_y = 0, bb_width = 10, bb_height = 10\<rparr>\<rparr>"
  define ms where "ms = replicate 100001 m"
  define ds where "ds = replicate 100001 d"
  have pm: "predId m = -1" by (simp add: m_def)
  have len: "length ms = 100001" "length ds = 100001" by (simp_all add: ms_def ds_def)
  have "length ms \<le> length ds" "\<forall>x\<in>set ms. validPred [] x"
    by (simp_all add: ms_def ds_def validPred_def pm)
  then obtain ds' c' where r: "assignIDs 0 ms [] ds 0 = Inr (ds', c')"
    using assignIDs_defined by blast
  have len': "length ds' = 100001"
    using assignIDs_length[OF r] len by simp
  have nth: "predId (ms ! j) = -1" if "j < 100001" for j
    using that by (simp add: ms_def pm)
  have u: "unmatchedIn ms 0 (Suc j) = Suc j" if "j < 100001" for j
    unfolding ms_def using pm that by (intro unmatchedIn_replicate) simp_all
  have in0: "0 < length ms" and in1: "100000 < length ms" by (simp_all add: len)
  have "m_id (ds' ! 0) = counterAfter (unmatchedIn ms 0 (Suc 0)) 0"
    using r in0 nth[of 0] by (intro assignIDs_fresh_id) simp_all
  also have "\<dots> = 1" by (simp add: u counterAfter_from_0 del: counterAfter.simps)
  finally have first: "m_id (ds' ! 0) = 1" .
  have "m_id (ds' ! 100000) = counterAfter (unmatchedIn ms 0 (Suc 100000)) 0"
    using r in1 nth[of 100000] by (intro assignIDs_fresh_id) simp_all
  also have "\<dots> = counterAfter (Suc 100000) 0"
    using u[of 100000] by simp
  also have "\<dots> = 1" unfolding counterAfter_from_0 by simp
  finally have final: "m_id (ds' ! 100000) = 1" .
  have "identityAfter ms [] ds 0 0 = Some 1" "identityAfter ms [] ds 0 100000 = Some 1"
    using r first final len' by (auto simp add: identityAfter_def)
  then show ?thesis unfolding ms_def ds_def m_def d_def by simp
qed

text \<open>
  C4, amended.  Within one batch in which at most 100000 matches record no
  prediction, any two distinct detections whose matches record none receive
  distinct newly minted identities, and the counter advances exactly once per
  unmatched detection.
\<close>

theorem unmatched_identities_distinct:
  assumes "length ms \<le> length ds" and "\<forall>m\<in>set ms. validPred ps m"
    and "length (filter (\<lambda>m. predId m = -1) ms) \<le> 100000"
  shows "\<exists>ds' c'. assignIDs 0 ms ps ds c = Inr (ds', c') \<and>
           c' = counterAfter (length (filter (\<lambda>m. predId m = -1) ms)) c \<and>
           (\<forall>i j. i < j \<and> j < length ms \<and> predId (ms ! i) = -1 \<and> predId (ms ! j) = -1
                \<longrightarrow> m_id (ds' ! i) \<noteq> m_id (ds' ! j))"
proof -
  obtain ds' c' where r: "assignIDs 0 ms ps ds c = Inr (ds', c')"
    using assignIDs_defined[OF assms(1,2)] by blast
  have total: "unmatchedIn ms 0 (length ms) \<le> 100000"
    using assms(3) by (simp only: unmatchedIn_filter)
  have "c' = counterAfter (length (filter (\<lambda>m. predId m = -1) ms)) c"
    using assignIDs_result(1)[OF r] by (simp only: unmatchedIn_filter)
  moreover have "m_id (ds' ! i) \<noteq> m_id (ds' ! j)"
    if h: "i < j \<and> j < length ms \<and> predId (ms ! i) = -1 \<and> predId (ms ! j) = -1" for i j
  proof -
    from h have ij: "i < j" and j: "j < length ms" and i: "i < length ms"
      and pi: "predId (ms ! i) = -1" and pj: "predId (ms ! j) = -1" by simp_all
    note ord = unmatchedIn_order[OF ij j pi pj]
    have "unmatchedIn ms 0 (Suc j) - unmatchedIn ms 0 (Suc i) < 100000"
      using ord total by linarith
    with ord(1,2)
    have "counterAfter (unmatchedIn ms 0 (Suc i)) c \<noteq> counterAfter (unmatchedIn ms 0 (Suc j)) c"
      by (rule counterAfter_distinct)
    then show ?thesis
      by (simp only: assignIDs_fresh_id[OF r i pi] assignIDs_fresh_id[OF r j pj]) simp
  qed
  ultimately show ?thesis using r by blast
qed

theorem unmatched_identities_distinct_witness:
  "\<exists>ds' c'. assignIDs 0
        [\<lparr>detectionIndex = 0, predId = -1, overlapScore = 0\<rparr>,
         \<lparr>detectionIndex = 1, predId = -1, overlapScore = 0\<rparr>] []
        [\<lparr>m_id = 0, m_class = 1, m_bb = \<lparr>bb_x = 0, bb_y = 0, bb_width = 10, bb_height = 10\<rparr>\<rparr>,
         \<lparr>m_id = 0, m_class = 1, m_bb = \<lparr>bb_x = 50, bb_y = 50, bb_width = 10, bb_height = 10\<rparr>\<rparr>]
        99999
      = Inr (ds', c') \<and> c' = 1 \<and> m_id (ds' ! 0) \<noteq> m_id (ds' ! 1)"
proof -
  let ?ms = "[\<lparr>detectionIndex = 0, predId = -1, overlapScore = 0\<rparr>,
         \<lparr>detectionIndex = 1, predId = -1, overlapScore = 0\<rparr>]"
  let ?ds = "[\<lparr>m_id = 0, m_class = 1, m_bb = \<lparr>bb_x = 0, bb_y = 0, bb_width = 10, bb_height = 10\<rparr>\<rparr>,
         \<lparr>m_id = 0, m_class = 1, m_bb = \<lparr>bb_x = 50, bb_y = 50, bb_width = 10, bb_height = 10\<rparr>\<rparr>]"
  have "length ?ms \<le> length ?ds" "\<forall>m\<in>set ?ms. validPred [] m"
    "length (filter (\<lambda>m. predId m = -1) ?ms) \<le> 100000"
    by (simp_all add: validPred_def)
  from unmatched_identities_distinct[OF this, of 99999]
  obtain ds' c' where r: "assignIDs 0 ?ms [] ?ds 99999 = Inr (ds', c')"
    and c: "c' = counterAfter (length (filter (\<lambda>m. predId m = -1) ?ms)) 99999"
    and d: "\<forall>i j. i < j \<and> j < length ?ms \<and> predId (?ms ! i) = -1 \<and> predId (?ms ! j) = -1
                \<longrightarrow> m_id (ds' ! i) \<noteq> m_id (ds' ! j)"
    by blast
  from c have "c' = 1" by (simp add: getNewObjectID_def)
  moreover from d[rule_format, of 0 1] have "m_id (ds' ! 0) \<noteq> m_id (ds' ! 1)" by simp
  ultimately show ?thesis using r by blast
qed

section \<open>Range of the identity counter\<close>

text \<open>
  C5 as stated fails in its last part: a detection does not always leave the
  assignment loop with a non-negative identity.  A detection matched with a
  prediction of identity -9 leaves with the identity -9, in the loop and in
  the callback with the matcher at threshold 50, and a detection for which
  the match list has no entry leaves with the identity it came with, here -3.
\<close>

theorem inherited_identity_negative:
  "identityAfter [\<lparr>detectionIndex = 0, predId = 0, overlapScore = 1\<rparr>]
      [\<lparr>m_id = -9, m_class = 1, m_bb = \<lparr>bb_x = 10, bb_y = 10, bb_width = 20, bb_height = 20\<rparr>\<rparr>]
      [\<lparr>m_id = 0, m_class = 1, m_bb = \<lparr>bb_x = 10, bb_y = 10, bb_width = 20, bb_height = 20\<rparr>\<rparr>]
      0 0 = Some (-9) \<and>
   identityAfter [] []
      [\<lparr>m_id = -3, m_class = 1, m_bb = \<lparr>bb_x = 10, bb_y = 10, bb_width = 20, bb_height = 20\<rparr>\<rparr>]
      0 0 = Some (-3) \<and>
   newDataCallback
     (\<lambda>img ps old.
        [\<lparr>m_id = 0, m_class = 1, m_bb = \<lparr>bb_x = 10, bb_y = 10, bb_width = 20, bb_height = 20\<rparr>\<rparr>])
     match
     \<lparr>decoded = Some (0 :: nat), clock = [5],
      response = Some
        [\<lparr>m_id = -9, m_class = 1, m_bb = \<lparr>bb_x = 10, bb_y = 10, bb_width = 20, bb_height = 20\<rparr>\<rparr>]\<rparr>
     \<lparr>lastObjectID = 0, predictions = [], detections = []\<rparr>
   = Some (Inr
       (\<lparr>lastObjectID = 0,
         predictions =
           [\<lparr>m_id = -9, m_class = 1, m_bb = \<lparr>bb_x = 10, bb_y = 10, bb_width = 20, bb_height = 20\<rparr>\<rparr>],
         detections =
           [\<lparr>m_id = -9, m_class = 1, m_bb = \<lparr>bb_x = 10, bb_y = 10, bb_width = 20, bb_height = 20\<rparr>\<rparr>]\<rparr>,
        [CallPredict 5,
         Prediction
           [\<lparr>m_id = -9, m_class = 1, m_bb = \<lparr>bb_x = 10, bb_y = 10, bb_width = 20, bb_height = 20\<rparr>\<rparr>],
         Detect, Match,
         Publish
           [\<lparr>m_id = -9, m_class = 1, m_bb = \<lparr>bb_x = 10, bb_y = 10, bb_width = 20, bb_height = 20\<rparr>\<rparr>],
         ImShow \<lparr>bb_x = 10, bb_y = 10, bb_width = 20, bb_height = 20\<rparr>]))"
  by (simp add: identityAfter_def newDataCallback_def match_def qualifies_def overlapRatio_def
        intersectionArea_def area_def assignIDs.simps getNewObjectID_def)

text \<open>
  C5, amended.  Started at 0, the identity counter stays in the range 0 to
  100000 over every sequence of calls, and every value the generator returns
  lies in the range 1 to 100000.  Consequently, wherever the assignment loop
  is defined, it returns with the counter still in that range, and every
  detection whose match records no prediction leaves with a newly generated
  identity in the range 1 to 100000.  A detection whose match references a
  prediction leaves with the identity of that prediction, whatever its sign,
  and a detection beyond the match list leaves as it came.  So every
  detection leaves with a non-negative identity when there is one match per
  detection and no prediction carries a negative identity.
\<close>

theorem identity_counter_range:
  "(0 \<le> counterAfter k 0 \<and> counterAfter k 0 \<le> 100000) \<and>
   (\<forall>v\<in>set (newObjectIDs n 0). 1 \<le> v \<and> v \<le> 100000) \<and>
   (length ms \<le> length ds \<and> (\<forall>m\<in>set ms. validPred ps m) \<longrightarrow>
      (\<exists>ds' c'. assignIDs 0 ms ps ds (counterAfter k 0) = Inr (ds', c') \<and>
          0 \<le> c' \<and> c' \<le> 100000 \<and> length ds' = length ds \<and>
          (\<forall>j. j < length ms \<and> predId (ms ! j) = -1 \<longrightarrow>
               m_id (ds' ! j) = counterAfter (k + unmatchedIn ms 0 (Suc j)) 0 \<and>
               1 \<le> m_id (ds' ! j) \<and> m_id (ds' ! j) \<le> 100000) \<and>
          (\<forall>j. j < length ms \<and> predId (ms ! j) \<noteq> -1 \<longrightarrow>
               m_id (ds' ! j) = m_id (ps ! nat (predId (ms ! j)))) \<and>
          (\<forall>j. length ms \<le> j \<longrightarrow> ds' ! j = ds ! j) \<and>
          (length ms = length ds \<and> (\<forall>p\<in>set ps. 0 \<le> m_id p) \<longrightarrow>
             (\<forall>d\<in>set ds'. 0 \<le> m_id d))))"
proof (intro conjI impI ballI)
  show "0 \<le> counterAfter k 0" "counterAfter k 0 \<le> 100000"
    using counterAfter_range[of 0 k] by simp_all
next
  fix v assume "v \<in> set (newObjectIDs n 0)"
  then obtain j where j: "j < n" and v: "v = newObjectIDs n 0 ! j"
    by (auto simp: in_set_conv_nth newObjectIDs_length)
  from v j have "v = counterAfter (Suc j) 0" by (simp only: newObjectIDs_nth)
  then show "1 \<le> v" "v \<le> 100000"
    using counterAfter_pos[of 0 "Suc j"] by simp_all
next
  assume h: "length ms \<le> length ds \<and> (\<forall>m\<in>set ms. validPred ps m)"
  then obtain ds' c' where r: "assignIDs 0 ms ps ds (counterAfter k 0) = Inr (ds', c')"
    using assignIDs_defined[of ms ds ps "counterAfter k 0"] by auto
  have len: "length ds' = length ds" using r by (rule assignIDs_length)
  have "c' = counterAfter (k + unmatchedIn ms 0 (length ms)) 0"
    using assignIDs_result(1)[OF r] by (simp only: counterAfter_add)
  then have cr: "0 \<le> c' \<and> c' \<le> 100000"
    using counterAfter_range[of 0 "k + unmatchedIn ms 0 (length ms)"] by simp
  have fresh: "m_id (ds' ! j) = counterAfter (k + unmatchedIn ms 0 (Suc j)) 0 \<and>
               1 \<le> m_id (ds' ! j) \<and> m_id (ds' ! j) \<le> 100000"
    if "j < length ms \<and> predId (ms ! j) = -1" for j
  proof -
    from that have j: "j < length ms" and p: "predId (ms ! j) = -1" by simp_all
    have "m_id (ds' ! j) = counterAfter (unmatchedIn ms 0 (Suc j)) (counterAfter k 0)"
      using r j p by (rule assignIDs_fresh_id)
    then have e: "m_id (ds' ! j) = counterAfter (k + unmatchedIn ms 0 (Suc j)) 0"
      by (simp only: counterAfter_add)
    have "0 < k + unmatchedIn ms 0 (Suc j)"
      using p by (simp add: unmatchedIn_last)
    then have "1 \<le> counterAfter (k + unmatchedIn ms 0 (Suc j)) 0 \<and>
               counterAfter (k + unmatchedIn ms 0 (Suc j)) 0 \<le> 100000"
      by (intro counterAfter_pos) simp_all
    with e show ?thesis by simp
  qed
  have inherit: "m_id (ds' ! j) = m_id (ps ! nat (predId (ms ! j)))"
    if "j < length ms \<and> predId (ms ! j) \<noteq> -1" for j
  proof -
    from that have j: "j < length ms" and p: "predId (ms ! j) \<noteq> -1" by simp_all
    from r j p show ?thesis by (rule assignIDs_matched_id)
  qed
  have keep: "ds' ! j = ds ! j" if "length ms \<le> j" for j
    using assignIDs_result(2)[OF r, of j] that by simp
  have nonneg: "\<forall>d\<in>set ds'. 0 \<le> m_id d"
    if g: "length ms = length ds \<and> (\<forall>p\<in>set ps. 0 \<le> m_id p)"
  proof
    fix d assume "d \<in> set ds'"
    with len g obtain j where j: "j < length ms" and d: "d = ds' ! j"
      by (auto simp: in_set_conv_nth)
    show "0 \<le> m_id d"
    proof (cases "predId (ms ! j) = -1")
      case True
      with fresh[of j] j d show ?thesis by simp
    next
      case False
      from h j have "validPred ps (ms ! j)" by simp
      with False have "nat (predId (ms ! j)) < length ps" by (simp add: validPred_def)
      then have "ps ! nat (predId (ms ! j)) \<in> set ps" by (rule nth_mem)
      with g inherit[of j] j False d show ?thesis by simp
    qed
  qed
  from r cr len fresh inherit keep nonneg
  show "\<exists>ds' c'. assignIDs 0 ms ps ds (counterAfter k 0) = Inr (ds', c') \<and>
          0 \<le> c' \<and> c' \<le> 100000 \<and> length ds' = length ds \<and>
          (\<forall>j. j < length ms \<and> predId (ms ! j) = -1 \<longrightarrow>
               m_id (ds' ! j) = counterAfter (k + unmatchedIn ms 0 (Suc j)) 0 \<and>
               1 \<le> m_id (ds' ! j) \<and> m_id (ds' ! j) \<le> 100000) \<and>
          (\<forall>j. j < length ms \<and> predId (ms ! j) \<noteq> -1 \<longrightarrow>
               m_id (ds' ! j) = m_id (ps ! nat (predId (ms ! j)))) \<and>
          (\<forall>j. length ms \<le> j \<longrightarrow> ds' ! j = ds ! j) \<and>
          (length ms = length ds \<and> (\<forall>p\<in>set ps. 0 \<le> m_id p) \<longrightarrow>
             (\<forall>d\<in>set ds'. 0 \<le> m_id d))"
    by blast
qed

theorem identity_counter_range_witness:
  "(0 \<le> counterAfter 100001 0 \<and> counterAfter 100001 0 \<le> 100000) \<and>
   (1 \<le> newObjectIDs 2 0 ! 1 \<and> newObjectIDs 2 0 ! 1 \<le> 100000) \<and>
   (\<exists>ds' c'. assignIDs 0
        [\<lparr>detectionIndex = 0, predId = 0, overlapScore = 1\<rparr>,
         \<lparr>detectionIndex = 1, predId = -1, overlapScore = 0\<rparr>]
        [\<lparr>m_id = 7, m_class = 1, m_bb = \<lparr>bb_x = 10, bb_y = 10, bb_width = 20, bb_height = 20\<rparr>\<rparr>]
        [\<lparr>m_id = -3, m_class = 1, m_bb = \<lparr>bb_x = 10, bb_y = 10, bb_width = 20, bb_height = 20\<rparr>\<rparr>,
         \<lparr>m_id = -3, m_class = 1, m_bb = \<lparr>bb_x = 90, bb_y = 90, bb_width = 5, bb_height = 5\<rparr>\<rparr>,
         \<lparr>m_id = -3, m_class = 2, m_bb = \<lparr>bb_x = 40, bb_y = 40, bb_width = 5, bb_height = 5\<rparr>\<rparr>]
        (counterAfter 100001 0)
      = Inr (ds', c') \<and> 0 \<le> c' \<and> c' \<le> 100000 \<and> length ds' = 3 \<and>
        m_id (ds' ! 0) = 7 \<and> 1 \<le> m_id (ds' ! 1) \<and> m_id (ds' ! 1) \<le> 100000 \<and>
        ds' ! 2 = \<lparr>m_id = -3, m_class = 2,
                     m_bb = \<lparr>bb_x = 40, bb_y = 40, bb_width = 5, bb_height = 5\<rparr>\<rparr>)"
proof -
  let ?ms = "[\<lparr>detectionIndex = 0, predId = 0, overlapScore = 1\<rparr>,
         \<lparr>detectionIndex = 1, predId = -1, overlapScore = 0\<rparr>]"
  let ?ps = "[\<lparr>m_id = 7, m_class = 1, m_bb = \<lparr>bb_x = 10, bb_y = 10, bb_width = 20, bb_height = 20\<rparr>\<rparr>]"
  let ?ds = "[\<lparr>m_id = -3, m_class = 1, m_bb = \<lparr>bb_x = 10, bb_y = 10, bb_width = 20, bb_height = 20\<rparr>\<rparr>,
         \<lparr>m_id = -3, m_class = 1, m_bb = \<lparr>bb_x = 90, bb_y = 90, bb_width = 5, bb_height = 5\<rparr>\<rparr>,
         \<lparr>m_id = -3, m_class = 2, m_bb = \<lparr>bb_x = 40, bb_y = 40, bb_width = 5, bb_height = 5\<rparr>\<rparr>]"
  note t = identity_counter_range[of 100001 2 ?ms ?ds ?ps]
  have pre: "length ?ms \<le> length ?ds \<and> (\<forall>m\<in>set ?ms. validPred ?ps m)"
    by (simp add: validPred_def)
  have "newObjectIDs 2 0 ! 1 \<in> set (newObjectIDs 2 0)"
    by (intro nth_mem) (simp add: newObjectIDs_length)
  with t have v: "1 \<le> newObjectIDs 2 0 ! 1 \<and> newObjectIDs 2 0 ! 1 \<le> 100000" by blast
  from t pre obtain ds' c' where
    r: "assignIDs 0 ?ms ?ps ?ds (counterAfter 100001 0) = Inr (ds', c')"
    and c: "0 \<le> c' \<and> c' \<le> 100000" and len: "length ds' = length ?ds"
    and fresh: "\<forall>j. j < length ?ms \<and> predId (?ms ! j) = -1 \<longrightarrow>
               m_id (ds' ! j) = counterAfter (100001 + unmatchedIn ?ms 0 (Suc j)) 0 \<and>
               1 \<le> m_id (ds' ! j) \<and> m_id (ds' ! j) \<le> 100000"
    and inherit: "\<forall>j. j < length ?ms \<and> predId (?ms ! j) \<noteq> -1 \<longrightarrow>
               m_id (ds' ! j) = m_id (?ps ! nat (predId (?ms ! j)))"
    and keep: "\<forall>j. length ?ms \<le> j \<longrightarrow> ds' ! j = ?ds ! j"
    by blast
  from inherit[rule_format, of 0] have i0: "m_id (ds' ! 0) = 7" by simp
  from fresh[rule_format, of 1] have i1: "1 \<le> m_id (ds' ! 1) \<and> m_id (ds' ! 1) \<le> 100000"
    by simp
  from keep[rule_format, of 2] have i2: "ds' ! 2 = \<lparr>m_id = -3, m_class = 2,
                     m_bb = \<lparr>bb_x = 40, bb_y = 40, bb_width = 5, bb_height = 5\<rparr>\<rparr>"
    by simp
  from len have l3: "length ds' = 3" by simp
  from t v r c l3 i0 i1 i2 show ?thesis by blast
qed

section \<open>A frame that cannot be decoded\<close>

text \<open>
  C6.  If decoding the incoming frame fails, the callback returns at once,
  whatever the clock, the prediction service, the detector and the matcher
  would do: the node is unchanged, so the identity counter and both vectors
  are as before, and the only effect is the logged error, so no predictions
  are requested and nothing is published.
\<close>

theorem undecodable_frame_skipped:
  assumes "decoded f = None"
  shows "newDataCallback detect matcher f s = Some (Inr (s, [LogError]))"
  using assms by (simp add: newDataCallback_def)

theorem undecodable_frame_skipped_witness:
  "newDataCallback
     (\<lambda>img ps old.
        [\<lparr>m_id = 0, m_class = 1, m_bb = \<lparr>bb_x = 10, bb_y = 10, bb_width = 20, bb_height = 20\<rparr>\<rparr>])
     match
     \<lparr>decoded = (None :: nat option), clock = [0, 5],
      response = Some
        [\<lparr>m_id = 7, m_class = 1, m_bb = \<lparr>bb_x = 10, bb_y = 10, bb_width = 20, bb_height = 20\<rparr>\<rparr>]\<rparr>
     \<lparr>lastObjectID = 3, predictions = [], detections = []\<rparr>
   = Some (Inr (\<lparr>lastObjectID = 3, predictions = [], detections = []\<rparr>, [LogError]))"
  using undecodable_frame_skipped[of
     "\<lparr>decoded = (None :: nat option), clock = [0, 5],
      response = Some
        [\<lparr>m_id = 7, m_class = 1, m_bb = \<lparr>bb_x = 10, bb_y = 10, bb_width = 20, bb_height = 20\<rparr>\<rparr>]\<rparr>"
     "\<lambda>img ps old.
        [\<lparr>m_id = 0, m_class = 1, m_bb = \<lparr>bb_x = 10, bb_y = 10, bb_width = 20, bb_height = 20\<rparr>\<rparr>]"
     match "\<lparr>lastObjectID = 3, predictions = [], detections = []\<rparr>"]
  by simp

section \<open>One match entry per detection\<close>

text \<open>
  C7.  For every detection list, every prediction list and every threshold,
  the match list has exactly the length of the detection list: entry \<open>i\<close> is
  about detection \<open>i\<close>, and "no match" is an entry with \<^verbatim>\<open>predId\<close> \<open>-1\<close>, written
  exactly when no prediction qualifies, and not an omitted entry.
\<close>

theorem match_one_entry_per_detection:
  "length (match t dets preds) = length dets \<and>
   (\<forall>i. i < length dets \<longrightarrow>
      detectionIndex (match t dets preds ! i) = i \<and>
      (predId (match t dets preds ! i) = -1 \<longleftrightarrow>
         \<not> (\<exists>p\<in>set preds. qualifies t (dets ! i) p)))"
  by (simp add: match_length match_nth bestPrediction_none)

theorem match_one_entry_per_detection_witness:
  "length (match 50
      [\<lparr>m_id = 0, m_class = 1, m_bb = \<lparr>bb_x = 0, bb_y = 0, bb_width = 10, bb_height = 10\<rparr>\<rparr>]
      [\<lparr>m_id = 7, m_class = 2, m_bb = \<lparr>bb_x = 0, bb_y = 0, bb_width = 10, bb_height = 10\<rparr>\<rparr>]) = 1 \<and>
   detectionIndex (match 50
      [\<lparr>m_id = 0, m_class = 1, m_bb = \<lparr>bb_x = 0, bb_y = 0, bb_width = 10, bb_height = 10\<rparr>\<rparr>]
      [\<lparr>m_id = 7, m_class = 2, m_bb = \<lparr>bb_x = 0, bb_y = 0, bb_width = 10, bb_height = 10\<rparr>\<rparr>] ! 0) = 0 \<and>
   predId (match 50
      [\<lparr>m_id = 0, m_class = 1, m_bb = \<lparr>bb_x = 0, bb_y = 0, bb_width = 10, bb_height = 10\<rparr>\<rparr>]
      [\<lparr>m_id = 7, m_class = 2, m_bb = \<lparr>bb_x = 0, bb_y = 0, bb_width = 10, bb_height = 10\<rparr>\<rparr>] ! 0) = -1"
  using match_one_entry_per_detection[of 50
      "[\<lparr>m_id = 0, m_class = 1, m_bb = \<lparr>bb_x = 0, bb_y = 0, bb_width = 10, bb_height = 10\<rparr>\<rparr>]"
      "[\<lparr>m_id = 7, m_class = 2, m_bb = \<lparr>bb_x = 0, bb_y = 0, bb_width = 10, bb_height = 10\<rparr>\<rparr>]"]
  by (simp add: qualifies_def)

section \<open>Overlap of a rectangle with itself\<close>

text \<open>
  C8 as stated fails: a rectangle without area overlaps itself with ratio 0,
  since the ratio of degenerate rectangles is 0.
\<close>

theorem overlapRatio_self_degenerate:
  "overlapRatio \<lparr>bb_x = 0, bb_y = 0, bb_width = 0, bb_height = 0\<rparr>
                \<lparr>bb_x = 0, bb_y = 0, bb_width = 0, bb_height = 0\<rparr> = 0 \<and>
   overlapRatio \<lparr>bb_x = 0, bb_y = 0, bb_width = 0, bb_height = 0\<rparr>
                \<lparr>bb_x = 0, bb_y = 0, bb_width = 0, bb_height = 0\<rparr> \<noteq> 1"
  by (simp add: overlapRatio_def intersectionArea_def)

text \<open>
  C8, amended.  For every rectangle \<open>a\<close>, \<open>overlapRatio a a\<close> is 1 when the width
  and the height of \<open>a\<close> are positive, and 0 otherwise, that is for every
  degenerate rectangle.
\<close>

theorem overlapRatio_self:
  "overlapRatio a a = (if 0 < bb_width a \<and> 0 < bb_height a then 1 else 0)"
proof (cases "0 < bb_width a \<and> 0 < bb_height a")
  case True
  then have i: "intersectionArea a a = area a"
    by (simp add: intersectionArea_def area_def)
  have "0 < area a" using True by (simp add: area_def)
  with True show ?thesis by (simp add: overlapRatio_def i)
next
  case False
  then have "bb_width a \<le> 0 \<or> bb_height a \<le> 0" by auto
  then have "intersectionArea a a = 0"
    by (simp add: intersectionArea_def)
  with False show ?thesis by (simp add: overlapRatio_def)
qed

theorem overlapRatio_self_witness:
  "overlapRatio \<lparr>bb_x = 10, bb_y = 10, bb_width = 20, bb_height = 20\<rparr>
                \<lparr>bb_x = 10, bb_y = 10, bb_width = 20, bb_height = 20\<rparr> = 1 \<and>
   overlapRatio \<lparr>bb_x = 10, bb_y = 10, bb_width = 20, bb_height = 0\<rparr>
                \<lparr>bb_x = 10, bb_y = 10, bb_width = 20, bb_height = 0\<rparr> = 0"
  using overlapRatio_self[of "\<lparr>bb_x = 10, bb_y = 10, bb_width = 20, bb_height = 20\<rparr>"]
    overlapRatio_self[of "\<lparr>bb_x = 10, bb_y = 10, bb_width = 20, bb_height = 0\<rparr>"]
  by simp

section \<open>The bounding box shown after publishing\<close>

text \<open>
  C9.  After publishing, the callback reads \<^verbatim>\<open>detections[0]\<close> without a check.
  For a frame that is decoded, with a clock that starts and a loop that is
  defined, the callback returns if the detector returned at least one
  detection, the read being in range, and it is undefined (a fault) if the
  detector returned none.
\<close>

theorem first_detection_read:
  assumes "decoded f = Some img" and "waitForClock (clock f) = Some t"
    and "ds = detect img (usedPredictions f s) (detections s)"
    and "length (matcher 50 ds (usedPredictions f s)) \<le> length ds"
    and "\<forall>m\<in>set (matcher 50 ds (usedPredictions f s)). validPred (usedPredictions f s) m"
  shows "(ds \<noteq> [] \<longrightarrow>
            (\<exists>s' es. newDataCallback detect matcher f s = Some (Inr (s', es)) \<and>
                detections s' \<noteq> [] \<and> last es = ImShow (m_bb (detections s' ! 0)))) \<and>
         (ds = [] \<longrightarrow> newDataCallback detect matcher f s = Some (Inl IndexOutOfRange))"
proof -
  obtain ds' c' where r: "assignIDs 0 (matcher 50 ds (usedPredictions f s))
      (usedPredictions f s) ds (lastObjectID s) = Inr (ds', c')"
    using assignIDs_defined[OF assms(4,5)] by blast
  have len: "length ds' = length ds" using r by (rule assignIDs_length)
  note cb = newDataCallback_decoded[OF assms(1,2), of detect matcher s, folded assms(3)]
  show ?thesis
  proof (cases ds')
    case Nil
    with len have "ds = []" by simp
    with r Nil show ?thesis by (simp add: cb)
  next
    case (Cons d rest)
    with len have "ds \<noteq> []" by auto
    with r Cons show ?thesis by (simp add: cb)
  qed
qed

theorem first_detection_read_witness:
  "(\<exists>s' es. newDataCallback
       (\<lambda>img ps old.
          [\<lparr>m_id = 0, m_class = 1, m_bb = \<lparr>bb_x = 10, bb_y = 10, bb_width = 20, bb_height = 20\<rparr>\<rparr>])
       match
       \<lparr>decoded = Some (0 :: nat), clock = [0, 5], response = Some []\<rparr>
       \<lparr>lastObjectID = 0, predictions = [], detections = []\<rparr> = Some (Inr (s', es)) \<and>
       detections s' \<noteq> [] \<and> last es = ImShow (m_bb (detections s' ! 0))) \<and>
   newDataCallback (\<lambda>img ps old. []) match
       \<lparr>decoded = Some (0 :: nat), clock = [0, 5], response = Some []\<rparr>
       \<lparr>lastObjectID = 0, predictions = [], detections = []\<rparr> = Some (Inl IndexOutOfRange)"
proof -
  let ?f = "\<lparr>decoded = Some (0 :: nat), clock = [0, 5], response = Some []\<rparr>"
  let ?s = "\<lparr>lastObjectID = 0, predictions = [], detections = []\<rparr>"
  let ?d = "[\<lparr>m_id = 0, m_class = 1,
               m_bb = \<lparr>bb_x = 10, bb_y = 10, bb_width = 20, bb_height = 20\<rparr>\<rparr>]"
  note one = first_detection_read[of ?f 0 5 ?d "\<lambda>img ps old. ?d" ?s match]
  note none = first_detection_read[of ?f 0 5 "[]" "\<lambda>img ps old. []" ?s match]
  have "\<exists>s' es. newDataCallback (\<lambda>img ps old. ?d) match ?f ?s = Some (Inr (s', es)) \<and>
       detections s' \<noteq> [] \<and> last es = ImShow (m_bb (detections s' ! 0))"
    using one by (simp add: match_length match_validPred)
  moreover have "newDataCallback (\<lambda>img ps old. []) match ?f ?s = Some (Inl IndexOutOfRange)"
    using none by (simp add: match_length match_validPred)
  ultimately show ?thesis by simp
qed

section \<open>Where the assignment loop is defined\<close>

text \<open>
  C10.  The loop indexes \<^verbatim>\<open>detections[i]\<close> for every \<open>i\<close> below \<^verbatim>\<open>matches.size()\<close> and
  \<^verbatim>\<open>predictions[matches[i].predId]\<close> whenever \<^verbatim>\<open>predId\<close> is not \<^verbatim>\<open>-1\<close>.  It is
  defined only if there are at most as many matches as detections and every
  non-negative \<^verbatim>\<open>predId\<close> is an index into the predictions; and for match
  entries as a matcher writes them (\<^verbatim>\<open>predId\<close> is \<^verbatim>\<open>-1\<close> or more) this condition is
  also enough, for every content of the vectors and every counter.
\<close>

theorem assignment_loop_precondition:
  "((\<exists>r. assignIDs 0 ms ps ds c = Inr r) \<longrightarrow>
      length ms \<le> length ds \<and> (\<forall>m\<in>set ms. 0 \<le> predId m \<longrightarrow> nat (predId m) < length ps)) \<and>
   (length ms \<le> length ds \<and> (\<forall>m\<in>set ms. -1 \<le> predId m) \<and>
    (\<forall>m\<in>set ms. 0 \<le> predId m \<longrightarrow> nat (predId m) < length ps) \<longrightarrow>
      (\<exists>r. assignIDs 0 ms ps ds c = Inr r))"
proof (rule conjI; rule impI)
  assume "\<exists>r. assignIDs 0 ms ps ds c = Inr r"
  then have a: "\<forall>j. 0 \<le> j \<and> j < length ms \<longrightarrow> j < length ds \<and> validPred ps (ms ! j)"
    by (simp only: assignIDs_ok_iff)
  have "length ms \<le> length ds"
  proof (cases ms)
    case Nil
    then show ?thesis by simp
  next
    case (Cons m ms')
    then have "length ms - 1 < length ms" by simp
    with a have "length ms - 1 < length ds" by blast
    then show ?thesis by simp
  qed
  moreover have "\<forall>m\<in>set ms. 0 \<le> predId m \<longrightarrow> nat (predId m) < length ps"
  proof (intro ballI impI)
    fix m assume "m \<in> set ms" and nn: "0 \<le> predId m"
    then obtain j where "j < length ms" and m: "ms ! j = m"
      by (auto simp: in_set_conv_nth)
    with a have "validPred ps m" by auto
    with nn show "nat (predId m) < length ps" by (simp add: validPred_def)
  qed
  ultimately show "length ms \<le> length ds \<and>
      (\<forall>m\<in>set ms. 0 \<le> predId m \<longrightarrow> nat (predId m) < length ps)" by simp
next
  assume h: "length ms \<le> length ds \<and> (\<forall>m\<in>set ms. -1 \<le> predId m) \<and>
    (\<forall>m\<in>set ms. 0 \<le> predId m \<longrightarrow> nat (predId m) < length ps)"
  have "\<forall>m\<in>set ms. validPred ps m"
  proof
    fix m assume m: "m \<in> set ms"
    with h have "-1 \<le> predId m" by blast
    then have "predId m = -1 \<or> 0 \<le> predId m" by linarith
    with h m show "validPred ps m" by (auto simp: validPred_def)
  qed
  with h obtain ds' c' where "assignIDs 0 ms ps ds c = Inr (ds', c')"
    using assignIDs_defined[of ms ds ps c] by blast
  then show "\<exists>r. assignIDs 0 ms ps ds c = Inr r" by blast
qed

theorem assignment_loop_precondition_witness:
  "(\<exists>r. assignIDs 0 [\<lparr>detectionIndex = 0, predId = 0, overlapScore = 1\<rparr>,
                      \<lparr>detectionIndex = 1, predId = -1, overlapScore = 0\<rparr>]
       [\<lparr>m_id = 7, m_class = 1, m_bb = \<lparr>bb_x = 10, bb_y = 10, bb_width = 20, bb_height = 20\<rparr>\<rparr>]
       [\<lparr>m_id = 0, m_class = 1, m_bb = \<lparr>bb_x = 10, bb_y = 10, bb_width = 20, bb_height = 20\<rparr>\<rparr>,
        \<lparr>m_id = 0, m_class = 1, m_bb = \<lparr>bb_x = 90, bb_y = 90, bb_width = 5, bb_height = 5\<rparr>\<rparr>] 0
     = Inr r) \<and>
   \<not> (\<exists>r. assignIDs 0 [\<lparr>detectionIndex = 0, predId = 3, overlapScore = 1\<rparr>]
       [\<lparr>m_id = 7, m_class = 1, m_bb = \<lparr>bb_x = 10, bb_y = 10, bb_width = 20, bb_height = 20\<rparr>\<rparr>]
       [\<lparr>m_id = 0, m_class = 1, m_bb = \<lparr>bb_x = 10, bb_y = 10, bb_width = 20, bb_height = 20\<rparr>\<rparr>] 0
     = Inr r)"
  using assignment_loop_precondition[of
       "[\<lparr>detectionIndex = 0, predId = 0, overlapScore = 1\<rparr>,
         \<lparr>detectionIndex = 1, predId = -1, overlapScore = 0\<rparr>]"
       "[\<lparr>m_id = 7, m_class = 1, m_bb = \<lparr>bb_x = 10, bb_y = 10, bb_width = 20, bb_height = 20\<rparr>\<rparr>]"
       "[\<lparr>m_id = 0, m_class = 1, m_bb = \<lparr>bb_x = 10, bb_y = 10, bb_width = 20, bb_height = 20\<rparr>\<rparr>,
        \<lparr>m_id = 0, m_class = 1, m_bb = \<lparr>bb_x = 90, bb_y = 90, bb_width = 5, bb_height = 5\<rparr>\<rparr>]" 0]
    assignment_loop_precondition[of
       "[\<lparr>detectionIndex = 0, predId = 3, overlapScore = 1\<rparr>]"
       "[\<lparr>m_id = 7, m_class = 1, m_bb = \<lparr>bb_x = 10, bb_y = 10, bb_width = 20, bb_height = 20\<rparr>\<rparr>]"
       "[\<lparr>m_id = 0, m_class = 1, m_bb = \<lparr>bb_x = 10, bb_y = 10, bb_width = 20, bb_height = 20\<rparr>\<rparr>]" 0]
  by simp

end
